theory Spec2Isabelle
  imports Main "HOL-Library.Word"
begin

section \<open>The auth package: OAuth2 device flow with a token cache\<close>

text \<open>
  A shallow embedding of the Go package \<^verbatim>\<open>internal/auth\<close> (\<^verbatim>\<open>DeviceFlowAuthenticator\<close>).
  Go's \<^verbatim>\<open>int\<close> (on 64-bit targets) and \<^verbatim>\<open>time.Duration\<close> are signed 64-bit integers whose
  arithmetic wraps around; they are \<open>64 word\<close>, read with \<open>sint\<close>. A \<^verbatim>\<open>time.Time\<close> is the
  instant it denotes, in nanoseconds, as an unbounded \<open>int\<close> (the range of \<^verbatim>\<open>time.Time\<close>
  exceeds every sum formed here). Strings are byte strings.
\<close>

subsection \<open>Data\<close>

type_synonym int64 = "64 word"
type_synonym duration = "64 word"
type_synonym instant = int

definition Second :: duration where
  "Second = 1000000000"

definition Minute :: duration where
  "Minute = 60 * Second"

record DeviceCodeResponse =
  dc_DeviceCode :: string
  dc_UserCode :: string
  dc_VerificationURI :: string
  dc_ExpiresIn :: int64
  dc_Interval :: int64
  dc_Message :: string

record TokenResponse =
  tr_AccessToken :: string
  tr_TokenType :: string
  tr_ExpiresIn :: int64
  tr_RefreshToken :: string
  tr_Scope :: string

record TokenCache =
  tc_AccessToken :: string
  tc_RefreshToken :: string
  tc_ExpiresAt :: instant

record TokenError =
  te_Error :: string
  te_ErrorDescription :: string

text \<open>
  The errors the package returns. \<open>OsError\<close>, \<open>JsonError\<close> and \<open>TransportError\<close> stand
  for the errors of \<^verbatim>\<open>os\<close>, \<^verbatim>\<open>encoding/json\<close> and \<^verbatim>\<open>net/http\<close>; the others are the messages
  built with \<^verbatim>\<open>errors.New\<close> and \<^verbatim>\<open>fmt.Errorf\<close>, the last two wrapping their cause.
\<close>

datatype os_error = ErrNotExist | ErrOther

datatype error =
    OsError os_error
  | JsonError
  | TransportError
  | RefreshFailed
  | DeviceCodeRequestFailed string
  | DeviceCodeExpired
  | UserDeclined
  | AuthenticationError string string
  | ParseTokenResponseFailed
  | AuthenticationTimedOut
  | FailedToRequestDeviceCode error
  | AuthenticationFailed error

subsection \<open>The environment: JSON codec, file system, clock and network\<close>

text \<open>
  \<^verbatim>\<open>encoding/json\<close> is a library outside the repository: its decoders and its encoder for
  the four structs are parameters, \<open>None\<close> when \<^verbatim>\<open>Unmarshal\<close>, \<^verbatim>\<open>Decode\<close> or
  \<^verbatim>\<open>MarshalIndent\<close> return an error.
\<close>

record codec =
  unmarshalTokenCache :: "string \<Rightarrow> TokenCache option"
  marshalTokenCache :: "TokenCache \<Rightarrow> string option"
  unmarshalTokenResponse :: "string \<Rightarrow> TokenResponse option"
  unmarshalTokenError :: "string \<Rightarrow> TokenError option"
  unmarshalDeviceCode :: "string \<Rightarrow> DeviceCodeResponse option"

text \<open>
  The three requests the package posts: to \<^verbatim>\<open>DeviceCodeEndpoint\<close>, and to \<^verbatim>\<open>TokenEndpoint\<close>
  with the device-code grant (carrying the device code) or the refresh-token grant
  (carrying the refresh token).
\<close>

datatype request =
    DeviceCodeRequest
  | PollRequest string
  | RefreshRequest string

text \<open>
  What \<^verbatim>\<open>PostForm\<close> and reading the body give: a transport error, or a status code with
  the body (\<open>None\<close> when reading the body fails). An exchange takes \<open>latency\<close>
  nanoseconds of wall-clock time; the client's 30 second timeout is an exchange whose
  reply is \<open>TransportFailure\<close>.
\<close>

datatype reply = TransportFailure | Response int "string option"

record exchange =
  latency :: nat
  reply :: reply

datatype syscall = SysReadFile | SysWriteFile | SysMkdirAll | SysRemove | SysStat

text \<open>
  The state of the world around one authenticator: the clock, the bytes of the cache
  file (\<open>None\<close> when there is no such file), the system calls that currently fail for a
  reason other than absence (permissions, a full disk), the script of the network (the
  \<open>n\<close>-th exchange of the process), and what the process has done so far: the requests
  it posted, each with the instant of posting, the arguments it passed to
  \<^verbatim>\<open>time.Sleep\<close>, and the number of warnings it wrote to standard error. The clock
  advances while the process sleeps and during an exchange; file operations take no
  time. A system call that fails leaves the file as it was.
\<close>

record world =
  now :: instant
  content :: "string option"
  faults :: "syscall set"
  net :: "nat \<Rightarrow> exchange"
  requests :: "(instant \<times> request) list"
  sleeps :: "duration list"
  warnings :: nat

definition os_ReadFile :: "world \<Rightarrow> os_error + string" where
  "os_ReadFile w =
     (if SysReadFile \<in> faults w then Inl ErrOther
      else case content w of None \<Rightarrow> Inl ErrNotExist | Some data \<Rightarrow> Inr data)"

definition os_MkdirAll :: "world \<Rightarrow> os_error option" where
  "os_MkdirAll w = (if SysMkdirAll \<in> faults w then Some ErrOther else None)"

definition os_WriteFile :: "string \<Rightarrow> world \<Rightarrow> os_error option \<times> world" where
  "os_WriteFile data w =
     (if SysWriteFile \<in> faults w then (Some ErrOther, w)
      else (None, w\<lparr>content := Some data\<rparr>))"

definition os_Remove :: "world \<Rightarrow> os_error option \<times> world" where
  "os_Remove w =
     (if SysRemove \<in> faults w then (Some ErrOther, w)
      else case content w of
             None \<Rightarrow> (Some ErrNotExist, w)
           | Some data \<Rightarrow> (None, w\<lparr>content := None\<rparr>))"

definition os_Stat :: "world \<Rightarrow> os_error option" where
  "os_Stat w =
     (if SysStat \<in> faults w then Some ErrOther
      else case content w of None \<Rightarrow> Some ErrNotExist | Some data \<Rightarrow> None)"

text \<open>\<^verbatim>\<open>time.Sleep\<close> returns at once when the duration is zero or negative.\<close>

definition time_Sleep :: "duration \<Rightarrow> world \<Rightarrow> world" where
  "time_Sleep d w = w\<lparr>now := now w + max 0 (sint d), sleeps := sleeps w @ [d]\<rparr>"

definition PostForm :: "request \<Rightarrow> world \<Rightarrow> reply \<times> world" where
  "PostForm rq w =
     (let e = net w (length (requests w))
      in (reply e, w\<lparr>now := now w + int (latency e),
                      requests := requests w @ [(now w, rq)]\<rparr>))"

definition warn :: "world \<Rightarrow> world" where
  "warn w = w\<lparr>warnings := Suc (warnings w)\<rparr>"

subsection \<open>The token cache\<close>

definition loadCachedToken :: "codec \<Rightarrow> world \<Rightarrow> error + TokenCache" where
  "loadCachedToken J w =
     (case os_ReadFile w of
        Inl e \<Rightarrow> Inl (OsError e)
      | Inr data \<Rightarrow>
          (case unmarshalTokenCache J data of
             None \<Rightarrow> Inl JsonError
           | Some cache \<Rightarrow> Inr cache))"

definition newTokenCache :: "TokenResponse \<Rightarrow> world \<Rightarrow> TokenCache" where
  "newTokenCache tokenResp w =
     \<lparr>tc_AccessToken = tr_AccessToken tokenResp,
      tc_RefreshToken = tr_RefreshToken tokenResp,
      tc_ExpiresAt = now w + sint (tr_ExpiresIn tokenResp * Second)\<rparr>"

definition saveTokenCache :: "codec \<Rightarrow> TokenResponse \<Rightarrow> world \<Rightarrow> error option \<times> world" where
  "saveTokenCache J tokenResp w =
     (case os_MkdirAll w of
        Some e \<Rightarrow> (Some (OsError e), w)
      | None \<Rightarrow>
          (case marshalTokenCache J (newTokenCache tokenResp w) of
             None \<Rightarrow> (Some JsonError, w)
           | Some data \<Rightarrow>
               (case os_WriteFile data w of
                  (Some e, w') \<Rightarrow> (Some (OsError e), w')
                | (None, w') \<Rightarrow> (None, w'))))"

text \<open>
  Both callers of \<^verbatim>\<open>saveTokenCache\<close> treat its error the same way: a warning on standard
  error, and the token is returned all the same.
\<close>

definition saveOrWarn :: "codec \<Rightarrow> TokenResponse \<Rightarrow> world \<Rightarrow> world" where
  "saveOrWarn J tokenResp w =
     (case saveTokenCache J tokenResp w of
        (Some e, w') \<Rightarrow> warn w'
      | (None, w') \<Rightarrow> w')"

definition ClearCache :: "world \<Rightarrow> error option \<times> world" where
  "ClearCache w =
     (case os_Remove w of
        (Some ErrNotExist, w') \<Rightarrow> (None, w')
      | (Some e, w') \<Rightarrow> (Some (OsError e), w')
      | (None, w') \<Rightarrow> (None, w'))"

definition HasCachedToken :: "world \<Rightarrow> bool" where
  "HasCachedToken w = (os_Stat w = None)"

subsection \<open>Refresh\<close>

definition decodeBody :: "(string \<Rightarrow> 'a option) \<Rightarrow> string option \<Rightarrow> 'a option" where
  "decodeBody dec body = (case body of None \<Rightarrow> None | Some b \<Rightarrow> dec b)"

definition refreshToken :: "codec \<Rightarrow> string \<Rightarrow> world \<Rightarrow> (error + string) \<times> world" where
  "refreshToken J refreshTok w =
     (case PostForm (RefreshRequest refreshTok) w of
        (TransportFailure, w1) \<Rightarrow> (Inl TransportError, w1)
      | (Response status body, w1) \<Rightarrow>
          if status \<noteq> 200 then (Inl RefreshFailed, w1)
          else (case decodeBody (unmarshalTokenResponse J) body of
                  None \<Rightarrow> (Inl JsonError, w1)
                | Some tokenResp \<Rightarrow>
                    (Inr (tr_AccessToken tokenResp), saveOrWarn J tokenResp w1)))"

subsection \<open>Device flow\<close>

definition requestDeviceCode :: "codec \<Rightarrow> world \<Rightarrow> (error + DeviceCodeResponse) \<times> world" where
  "requestDeviceCode J w =
     (case PostForm DeviceCodeRequest w of
        (TransportFailure, w1) \<Rightarrow> (Inl TransportError, w1)
      | (Response status body, w1) \<Rightarrow>
          if status \<noteq> 200
          then (Inl (DeviceCodeRequestFailed (case body of None \<Rightarrow> [] | Some b \<Rightarrow> b)), w1)
          else (case decodeBody (unmarshalDeviceCode J) body of
                  None \<Rightarrow> (Inl JsonError, w1)
                | Some deviceCode \<Rightarrow> (Inr deviceCode, w1)))"

text \<open>
  One pass through the body of the \<^verbatim>\<open>for\<close> loop of \<^verbatim>\<open>pollForToken\<close>: either
  \<^verbatim>\<open>continue\<close>, with the interval the next pass sleeps for, or \<^verbatim>\<open>return\<close>.
\<close>

datatype outcome = Continue duration | Return "error + string"

definition pollBody :: "codec \<Rightarrow> DeviceCodeResponse \<Rightarrow> duration \<Rightarrow> world \<Rightarrow> outcome \<times> world" where
  "pollBody J deviceCode interval w =
     (case PostForm (PollRequest (dc_DeviceCode deviceCode)) (time_Sleep interval w) of
        (TransportFailure, w1) \<Rightarrow> (Continue interval, w1)
      | (Response status None, w1) \<Rightarrow> (Continue interval, w1)
      | (Response status (Some body), w1) \<Rightarrow>
          if status \<noteq> 200 then
            (case unmarshalTokenError J body of
               None \<Rightarrow> (Continue interval, w1)
             | Some tokenErr \<Rightarrow>
                 if te_Error tokenErr = ''authorization_pending'' then (Continue interval, w1)
                 else if te_Error tokenErr = ''slow_down'' then (Continue (interval + 5 * Second), w1)
                 else if te_Error tokenErr = ''expired_token'' then (Return (Inl DeviceCodeExpired), w1)
                 else if te_Error tokenErr = ''authorization_declined'' then (Return (Inl UserDeclined), w1)
                 else (Return (Inl (AuthenticationError (te_Error tokenErr)
                                      (te_ErrorDescription tokenErr))), w1))
          else
            (case unmarshalTokenResponse J body of
               None \<Rightarrow> (Return (Inl ParseTokenResponseFailed), w1)
             | Some tokenResp \<Rightarrow>
                 (Return (Inr (tr_AccessToken tokenResp)), saveOrWarn J tokenResp w1)))"

text \<open>
  The loop runs while the clock is before \<open>expiration\<close>. Nothing in the code bounds the
  number of passes, so the loop is a partial function: \<open>None\<close> is a run that never
  returns.
\<close>

partial_function (option) pollLoop ::
  "codec \<Rightarrow> DeviceCodeResponse \<Rightarrow> instant \<Rightarrow> duration \<Rightarrow> world \<Rightarrow> ((error + string) \<times> world) option"
where
  "pollLoop J deviceCode expiration interval w =
     (if now w < expiration then
        (case pollBody J deviceCode interval w of
           (Continue interval', w') \<Rightarrow> pollLoop J deviceCode expiration interval' w'
         | (Return r, w') \<Rightarrow> Some (r, w'))
      else Some (Inl AuthenticationTimedOut, w))"

declare pollLoop.simps [code]

definition initialInterval :: "DeviceCodeResponse \<Rightarrow> duration" where
  "initialInterval deviceCode =
     (let interval = dc_Interval deviceCode * Second
      in if interval = 0 then 5 * Second else interval)"

definition pollForToken ::
  "codec \<Rightarrow> DeviceCodeResponse \<Rightarrow> world \<Rightarrow> ((error + string) \<times> world) option"
where
  "pollForToken J deviceCode w =
     pollLoop J deviceCode (now w + sint (dc_ExpiresIn deviceCode * Second))
       (initialInterval deviceCode) w"

text \<open>
  \<^verbatim>\<open>authenticateWithDeviceFlow\<close> also prints the instructions and asks the browser
  package to open the verification URI; neither changes what is returned.
\<close>

definition authenticateWithDeviceFlow ::
  "codec \<Rightarrow> world \<Rightarrow> ((error + string) \<times> world) option"
where
  "authenticateWithDeviceFlow J w =
     (case requestDeviceCode J w of
        (Inl e, w1) \<Rightarrow> Some (Inl (FailedToRequestDeviceCode e), w1)
      | (Inr deviceCode, w1) \<Rightarrow>
          (case pollForToken J deviceCode w1 of
             None \<Rightarrow> None
           | Some (Inl e, w2) \<Rightarrow> Some (Inl (AuthenticationFailed e), w2)
           | Some (Inr token, w2) \<Rightarrow> Some (Inr token, w2)))"

subsection \<open>GetToken\<close>

definition GetToken :: "codec \<Rightarrow> world \<Rightarrow> ((error + string) \<times> world) option" where
  "GetToken J w =
     (case loadCachedToken J w of
        Inr token \<Rightarrow>
          if now w + sint (5 * Minute) < tc_ExpiresAt token
          then Some (Inr (tc_AccessToken token), w)
          else if tc_RefreshToken token \<noteq> []
          then (case refreshToken J (tc_RefreshToken token) w of
                  (Inr newToken, w1) \<Rightarrow> Some (Inr newToken, w1)
                | (Inl e, w1) \<Rightarrow> authenticateWithDeviceFlow J w1)
          else authenticateWithDeviceFlow J w
      | Inl e \<Rightarrow> authenticateWithDeviceFlow J w)"

subsection \<open>Vocabulary of the properties\<close>

text \<open>
  A reply after which the poll loop goes on: the exchange failed in transport or while
  the body was read, or the server answered with a status other than 200 and reported
  neither a decline nor any other terminal error.
\<close>

definition keepsPending :: "codec \<Rightarrow> reply \<Rightarrow> bool" where
  "keepsPending J r =
     (case r of
        TransportFailure \<Rightarrow> True
      | Response status None \<Rightarrow> True
      | Response status (Some body) \<Rightarrow>
          status \<noteq> 200 \<and>
          (case unmarshalTokenError J body of
             None \<Rightarrow> True
           | Some tokenErr \<Rightarrow>
               te_Error tokenErr = ''authorization_pending'' \<or>
               te_Error tokenErr = ''slow_down''))"

text \<open>The server signals \<^verbatim>\<open>slow_down\<close>.\<close>

definition slowDown :: "codec \<Rightarrow> reply \<Rightarrow> bool" where
  "slowDown J r =
     (case r of
        Response status (Some body) \<Rightarrow>
          status \<noteq> 200 \<and>
          (case unmarshalTokenError J body of
             None \<Rightarrow> False
           | Some tokenErr \<Rightarrow> te_Error tokenErr = ''slow_down'')
      | _ \<Rightarrow> False)"

text \<open>
  How many of the next \<open>j\<close> exchanges of the script, counted from the requests already
  posted in \<open>w\<close>, signal \<^verbatim>\<open>slow_down\<close>.
\<close>

definition slowDownsBefore :: "codec \<Rightarrow> world \<Rightarrow> nat \<Rightarrow> nat" where
  "slowDownsBefore J w j =
     length (filter (\<lambda>n. slowDown J (reply (net w n)))
               [length (requests w) ..< length (requests w) + j])"

text \<open>
  The intervals a loop starting with interval \<open>i\<close> sleeps for, given for each pass
  whether its reply signals \<^verbatim>\<open>slow_down\<close>.
\<close>

fun intervalsFrom :: "duration \<Rightarrow> bool list \<Rightarrow> duration list" where
  "intervalsFrom i [] = []"
| "intervalsFrom i (s # ss) = i # intervalsFrom (if s then i + 5 * Second else i) ss"

text \<open>The refresh tokens of the refresh requests posted so far, in order.\<close>

definition refreshesPosted :: "world \<Rightarrow> string list" where
  "refreshesPosted w =
     concat (map (\<lambda>(t, rq). case rq of RefreshRequest tok \<Rightarrow> [tok] | _ \<Rightarrow> [])
               (requests w))"

text \<open>Two worlds that differ at most in the bytes of the cache file.\<close>

definition sameButCache :: "world \<Rightarrow> world \<Rightarrow> bool" where
  "sameButCache w v \<longleftrightarrow>
     now w = now v \<and> faults w = faults v \<and> net w = net v \<and>
     requests w = requests v \<and> sleeps w = sleeps v \<and> warnings w = warnings v"

text \<open>
  Two runs with the same outcome: both never return, or both return the same token or
  error and leave worlds that differ at most in the cache file.
\<close>

definition sameOutcome ::
  "((error + string) \<times> world) option \<Rightarrow> ((error + string) \<times> world) option \<Rightarrow> bool"
where
  "sameOutcome a b =
     (case (a, b) of
        (None, None) \<Rightarrow> True
      | (Some (r, w), Some (r', w')) \<Rightarrow> r = r' \<and> sameButCache w w'
      | _ \<Rightarrow> False)"

subsection \<open>Concrete inputs\<close>

text \<open>
  A small codec, device codes, credentials and scripted worlds, on which the functions
  are evaluated. The codec reads the body \<open>''token''\<close> as a token response, every
  body but \<open>''garbage''\<close> as an error object whose code is the body itself, the
  body \<open>''device''\<close> as a device-code response, and the cache files \<open>''valid''\<close>,
  \<open>''stale''\<close> and \<open>''saved''\<close> as credentials.
\<close>

definition cachedCredential :: TokenCache where
  "cachedCredential =
     \<lparr>tc_AccessToken = ''A0'', tc_RefreshToken = ''R0'', tc_ExpiresAt = 1000000000000\<rparr>"

definition staleCredential :: TokenCache where
  "staleCredential =
     \<lparr>tc_AccessToken = ''A1'', tc_RefreshToken = ''R9'', tc_ExpiresAt = 60000000000\<rparr>"

definition savedCredential :: TokenCache where
  "savedCredential =
     \<lparr>tc_AccessToken = ''T1'', tc_RefreshToken = ''R1'', tc_ExpiresAt = 3600000000000\<rparr>"

definition freshResponse :: TokenResponse where
  "freshResponse =
     \<lparr>tr_AccessToken = ''T1'', tr_TokenType = ''Bearer'', tr_ExpiresIn = 3600,
      tr_RefreshToken = ''R1'', tr_Scope = []\<rparr>"

definition ordinaryCode :: DeviceCodeResponse where
  "ordinaryCode =
     \<lparr>dc_DeviceCode = ''D1'', dc_UserCode = ''ABC-123'', dc_VerificationURI = ''U'',
      dc_ExpiresIn = 900, dc_Interval = 5, dc_Message = []\<rparr>"

definition shortLivedCode :: DeviceCodeResponse where
  "shortLivedCode = ordinaryCode\<lparr>dc_ExpiresIn := 1\<rparr>"

definition overflowCode :: DeviceCodeResponse where
  "overflowCode = ordinaryCode\<lparr>dc_ExpiresIn := - 9223372037\<rparr>"

definition exampleCodec :: codec where
  "exampleCodec =
     \<lparr>unmarshalTokenCache =
        (\<lambda>s. if s = ''valid'' then Some cachedCredential
             else if s = ''stale'' then Some staleCredential
             else if s = ''saved'' then Some savedCredential
             else None),
      marshalTokenCache = (\<lambda>c. Some ''saved''),
      unmarshalTokenResponse = (\<lambda>s. if s = ''token'' then Some freshResponse else None),
      unmarshalTokenError =
        (\<lambda>s. if s = ''garbage'' then None
             else Some \<lparr>te_Error = s, te_ErrorDescription = []\<rparr>),
      unmarshalDeviceCode = (\<lambda>s. if s = ''device'' then Some ordinaryCode else None)\<rparr>"

text \<open>
  A network that answers the first requests with the given replies and every later one
  with \<^verbatim>\<open>authorization_pending\<close>, each exchange taking one nanosecond.
\<close>

definition script :: "reply list \<Rightarrow> nat \<Rightarrow> exchange" where
  "script rs n =
     \<lparr>latency = 1,
      reply = (if n < length rs then rs ! n
               else Response 400 (Some ''authorization_pending''))\<rparr>"

definition startWorld :: "string option \<Rightarrow> reply list \<Rightarrow> world" where
  "startWorld file rs =
     \<lparr>now = 0, content = file, faults = {}, net = script rs,
      requests = [], sleeps = [], warnings = 0\<rparr>"

section \<open>Properties\<close>

subsection \<open>Arithmetic of durations\<close>

lemma sint_5_Minute: "sint (5 * Minute) = 300000000000"
  by (simp add: Minute_def Second_def)

lemma sint_add_5_Second:
  fixes a :: duration
  assumes "sint a + 5000000000 < 2 ^ 63"
  shows "sint (a + 5 * Second) = sint a + 5000000000"
proof -
  have lo: "- (2 ^ 63) \<le> sint a"
    using sint_ge [of a] by simp
  have "sint (a + 5 * Second) = signed_take_bit 63 (sint a + 5000000000)"
    by (simp add: sint_word_ariths Second_def)
  also from lo assms have "\<dots> = sint a + 5000000000"
    by (intro signed_take_bit_int_eq_self) simp_all
  finally show ?thesis .
qed

subsection \<open>What one pass of the poll loop changes\<close>

lemma saveOrWarn_frame:
  "now (saveOrWarn J t w) = now w \<and> net (saveOrWarn J t w) = net w \<and>
   requests (saveOrWarn J t w) = requests w \<and> sleeps (saveOrWarn J t w) = sleeps w \<and>
   faults (saveOrWarn J t w) = faults w"
  by (simp add: saveOrWarn_def saveTokenCache_def os_MkdirAll_def os_WriteFile_def warn_def
      split: option.splits prod.splits)

lemma pollBody_frame:
  "net (snd (pollBody J dc i w)) = net w \<and>
   faults (snd (pollBody J dc i w)) = faults w \<and>
   now (snd (pollBody J dc i w)) =
     now w + max 0 (sint i) + int (latency (net w (length (requests w)))) \<and>
   requests (snd (pollBody J dc i w)) =
     requests w @ [(now w + max 0 (sint i), PollRequest (dc_DeviceCode dc))] \<and>
   sleeps (snd (pollBody J dc i w)) = sleeps w @ [i]"
  by (simp add: pollBody_def PostForm_def time_Sleep_def Let_def saveOrWarn_frame
      split: reply.splits option.splits)

lemma pollBody_keepsPending:
  assumes "keepsPending J (reply (net w (length (requests w))))"
  shows "\<exists>i'. fst (pollBody J dc i w) = Continue i'"
  using assms
  by (auto simp: keepsPending_def pollBody_def PostForm_def time_Sleep_def Let_def
      split: reply.splits option.splits)

lemma pollBody_Continue_interval:
  assumes "pollBody J dc i w = (Continue i', w1)"
  shows "i' = (if slowDown J (reply (net w (length (requests w)))) then i + 5 * Second else i)"
  using assms
  by (auto simp: slowDown_def pollBody_def PostForm_def time_Sleep_def Let_def
      split: reply.splits option.splits if_splits)

subsection \<open>Induction over a run of the poll loop\<close>

text \<open>
  A property of every run that returns follows from the three ways a pass can go: the
  deadline has passed, the body returns, or the body continues and the rest of the run
  has the property.
\<close>

lemma pollLoop_run_induct [consumes 1, case_names Expired Return Continue]:
  assumes run: "pollLoop J dc ex i w = Some y"
    and expired: "\<And>i w. \<not> now w < ex \<Longrightarrow> P i w (Inl AuthenticationTimedOut, w)"
    and return: "\<And>i w r w'. now w < ex \<Longrightarrow> pollBody J dc i w = (Return r, w') \<Longrightarrow> P i w (r, w')"
    and continue: "\<And>i w i' w' y. now w < ex \<Longrightarrow> pollBody J dc i w = (Continue i', w') \<Longrightarrow>
        pollLoop J dc ex i' w' = Some y \<Longrightarrow> P i' w' y \<Longrightarrow> P i w y"
  shows "P i w y"
proof -
  let ?Q = "\<lambda>J' dc' ex' i w y. J' = J \<longrightarrow> dc' = dc \<longrightarrow> ex' = ex \<longrightarrow>
              pollLoop J dc ex i w = Some y \<and> P i w y"
  have "?Q J dc ex i w y"
  proof (rule pollLoop.raw_induct [where P = ?Q, OF _ run], intro impI, goal_cases)
    case (1 f J' dc' ex' i w y)
    show ?case
    proof (cases "now w < ex")
      case False
      with 1 expired [of w i] show ?thesis
        by (auto simp: pollLoop.simps [of J dc ex i w])
    next
      case True
      obtain out w' where body: "pollBody J dc i w = (out, w')"
        by (cases "pollBody J dc i w")
      show ?thesis
      proof (cases out)
        case (Return r)
        with 1 True body return [of w i r w'] show ?thesis
          by (auto simp: pollLoop.simps [of J dc ex i w])
      next
        case (Continue i')
        with 1 True body have "f J dc ex i' w' = Some y" by simp
        with 1 have "pollLoop J dc ex i' w' = Some y \<and> P i' w' y" by blast
        with True body Continue continue [of w i i' w' y] show ?thesis
          by (auto simp: pollLoop.simps [of J dc ex i w])
      qed
    qed
  qed
  then show ?thesis by simp
qed

subsection \<open>A run of the whole flow\<close>

text \<open>
  Without a cache file, a device code that lives 900 seconds and is polled every five,
  and a server that answers \<^verbatim>\<open>authorization_pending\<close> twice and then issues a token:
  \<open>GetToken\<close> requests the device code, polls three times at least five seconds
  apart, writes the cache file and returns the token.
\<close>

lemma GetToken_device_flow_example:
  "map_option fst
     (GetToken exampleCodec
        (startWorld None [Response 200 (Some ''device''),
                          Response 400 (Some ''authorization_pending''),
                          Response 400 (Some ''authorization_pending''),
                          Response 200 (Some ''token'')]))
     = Some (Inr ''T1'') \<and>
   map_option (requests \<circ> snd)
     (GetToken exampleCodec
        (startWorld None [Response 200 (Some ''device''),
                          Response 400 (Some ''authorization_pending''),
                          Response 400 (Some ''authorization_pending''),
                          Response 200 (Some ''token'')]))
     = Some [(0, DeviceCodeRequest), (5000000001, PollRequest ''D1''),
             (10000000002, PollRequest ''D1''), (15000000003, PollRequest ''D1'')] \<and>
   map_option (content \<circ> snd)
     (GetToken exampleCodec
        (startWorld None [Response 200 (Some ''device''),
                          Response 400 (Some ''authorization_pending''),
                          Response 400 (Some ''authorization_pending''),
                          Response 200 (Some ''token'')]))
     = Some (Some ''saved'')"
  by code_simp

subsection \<open>The cache is used while it is valid\<close>

text \<open>
  C1. When the cache file holds a credential whose \<open>ExpiresAt\<close> is more than five
  minutes (300000000000 ns) after the current time, \<open>GetToken\<close> returns the cached
  access token and leaves the world as it was: no request of any kind is posted, nothing
  is slept, the cache file is not written.
\<close>

theorem GetToken_valid_cache:
  assumes "loadCachedToken J w = Inr token"
    and "now w + 300000000000 < tc_ExpiresAt token"
  shows "GetToken J w = Some (Inr (tc_AccessToken token), w)"
  using assms by (simp add: GetToken_def sint_5_Minute)

theorem GetToken_valid_cache_witness:
  "loadCachedToken exampleCodec (startWorld (Some ''valid'') []) = Inr cachedCredential \<and>
   now (startWorld (Some ''valid'') []) + 300000000000 < tc_ExpiresAt cachedCredential \<and>
   GetToken exampleCodec (startWorld (Some ''valid'') []) =
     Some (Inr ''A0'', startWorld (Some ''valid'') []) \<and>
   requests (startWorld (Some ''valid'') []) = []"
proof -
  have load: "loadCachedToken exampleCodec (startWorld (Some ''valid'') []) = Inr cachedCredential"
    by (simp add: loadCachedToken_def os_ReadFile_def startWorld_def exampleCodec_def)
  have fresh: "now (startWorld (Some ''valid'') []) + 300000000000 < tc_ExpiresAt cachedCredential"
    by (simp add: startWorld_def cachedCredential_def)
  from GetToken_valid_cache [OF load fresh] load fresh show ?thesis
    by (simp add: cachedCredential_def startWorld_def)
qed

subsection \<open>Clearing the cache\<close>

text \<open>
  C8. \<open>ClearCache\<close> succeeds when there is no cache file: the absence reported by
  \<^verbatim>\<open>os.Remove\<close> is not an error, and nothing changes. Whatever the cache file held
  before, when the file system lets the file be removed \<open>ClearCache\<close> returns no
  error; and whenever \<open>ClearCache\<close> has returned no error, \<open>HasCachedToken\<close> is
  false afterwards and a second \<open>ClearCache\<close> succeeds and changes nothing.
\<close>

theorem ClearCache_then_HasCachedToken:
  "(content w = None \<and> SysRemove \<notin> faults w \<longrightarrow> ClearCache w = (None, w)) \<and>
   (SysRemove \<notin> faults w \<longrightarrow> fst (ClearCache w) = None) \<and>
   (fst (ClearCache w) = None \<longrightarrow>
      \<not> HasCachedToken (snd (ClearCache w)) \<and>
      ClearCache (snd (ClearCache w)) = (None, snd (ClearCache w)))"
  by (auto simp: ClearCache_def os_Remove_def HasCachedToken_def os_Stat_def
      split: option.splits)

theorem ClearCache_then_HasCachedToken_witness:
  "HasCachedToken (startWorld (Some ''valid'') []) \<and>
   SysRemove \<notin> faults (startWorld (Some ''valid'') []) \<and>
   fst (ClearCache (startWorld (Some ''valid'') [])) = None \<and>
   \<not> HasCachedToken (snd (ClearCache (startWorld (Some ''valid'') []))) \<and>
   content (startWorld None []) = None \<and> SysRemove \<notin> faults (startWorld None []) \<and>
   ClearCache (startWorld None []) = (None, startWorld None [])"
proof -
  have removable: "SysRemove \<notin> faults (startWorld (Some ''valid'') [])"
    by (simp add: startWorld_def)
  have absent: "content (startWorld None []) = None \<and> SysRemove \<notin> faults (startWorld None [])"
    by (simp add: startWorld_def)
  have had: "HasCachedToken (startWorld (Some ''valid'') [])"
    by (simp add: HasCachedToken_def os_Stat_def startWorld_def)
  from ClearCache_then_HasCachedToken [of "startWorld (Some ''valid'') []"]
    ClearCache_then_HasCachedToken [of "startWorld None []"] removable absent had
  show ?thesis by blast
qed

subsection \<open>A failed cache write after a refresh\<close>

text \<open>
  C7. When the refresh request is answered with status 200 and a token response, and
  writing the cache then fails, \<open>refreshToken\<close> still returns the new access token
  and no error; the failure is one more warning on standard error.
\<close>

theorem refreshToken_cache_write_failure:
  assumes "reply (net w (length (requests w))) = Response 200 (Some body)"
    and "unmarshalTokenResponse J body = Some tokenResp"
    and "fst (saveTokenCache J tokenResp (snd (PostForm (RefreshRequest refreshTok) w))) = Some e"
  shows "fst (refreshToken J refreshTok w) = Inr (tr_AccessToken tokenResp) \<and>
         warnings (snd (refreshToken J refreshTok w)) = Suc (warnings w)"
  using assms
  by (auto simp: refreshToken_def PostForm_def Let_def decodeBody_def saveOrWarn_def warn_def
      saveTokenCache_def os_WriteFile_def os_MkdirAll_def
      split: prod.splits option.splits if_splits)

theorem refreshToken_cache_write_failure_witness:
  "fst (saveTokenCache exampleCodec freshResponse
          (snd (PostForm (RefreshRequest ''R9'')
                  ((startWorld (Some ''stale'') [Response 200 (Some ''token'')])
                     \<lparr>faults := {SysWriteFile}\<rparr>)))) = Some (OsError ErrOther) \<and>
   fst (refreshToken exampleCodec ''R9''
          ((startWorld (Some ''stale'') [Response 200 (Some ''token'')])
             \<lparr>faults := {SysWriteFile}\<rparr>)) = Inr ''T1'' \<and>
   warnings (snd (refreshToken exampleCodec ''R9''
          ((startWorld (Some ''stale'') [Response 200 (Some ''token'')])
             \<lparr>faults := {SysWriteFile}\<rparr>))) = 1"
proof -
  let ?w = "(startWorld (Some ''stale'') [Response 200 (Some ''token'')])\<lparr>faults := {SysWriteFile}\<rparr>"
  have r: "reply (net ?w (length (requests ?w))) = Response 200 (Some ''token'')"
    by (simp add: startWorld_def script_def)
  have d: "unmarshalTokenResponse exampleCodec ''token'' = Some freshResponse"
    by (simp add: exampleCodec_def)
  have s: "fst (saveTokenCache exampleCodec freshResponse (snd (PostForm (RefreshRequest ''R9'') ?w)))
      = Some (OsError ErrOther)"
    by (simp add: saveTokenCache_def os_MkdirAll_def os_WriteFile_def PostForm_def Let_def
        startWorld_def exampleCodec_def)
  from refreshToken_cache_write_failure [OF r d s] s show ?thesis
    by (simp add: freshResponse_def startWorld_def)
qed

text \<open>The poll loop treats a failed cache write the same way.\<close>

lemma pollBody_cache_write_failure:
  assumes "reply (net w (length (requests w))) = Response 200 (Some body)"
    and "unmarshalTokenResponse J body = Some tokenResp"
    and "fst (saveTokenCache J tokenResp
           (snd (PostForm (PollRequest (dc_DeviceCode deviceCode)) (time_Sleep interval w)))) = Some e"
  shows "fst (pollBody J deviceCode interval w) = Return (Inr (tr_AccessToken tokenResp)) \<and>
         warnings (snd (pollBody J deviceCode interval w)) = Suc (warnings w)"
  using assms
  by (auto simp: pollBody_def PostForm_def Let_def time_Sleep_def saveOrWarn_def warn_def
      saveTokenCache_def os_WriteFile_def os_MkdirAll_def
      split: prod.splits option.splits if_splits)

subsection \<open>Saving and loading\<close>

text \<open>
  C9. When \<open>saveTokenCache\<close> succeeds, the file can be read, and the JSON codec
  decodes what it encoded for this record, then loading right after the save yields the
  record that was saved: the access token and the refresh token of the response, and the
  expiry computed at the save. The save gives the same world whatever bytes the cache
  file held before: the earlier content is replaced, not merged.
\<close>

theorem save_then_load:
  assumes "saveTokenCache J tokenResp w = (None, w')"
    and "SysReadFile \<notin> faults w"
    and "\<forall>data. marshalTokenCache J (newTokenCache tokenResp w) = Some data \<longrightarrow>
           unmarshalTokenCache J data = Some (newTokenCache tokenResp w)"
  shows "loadCachedToken J w' = Inr (newTokenCache tokenResp w) \<and>
         tc_AccessToken (newTokenCache tokenResp w) = tr_AccessToken tokenResp \<and>
         tc_RefreshToken (newTokenCache tokenResp w) = tr_RefreshToken tokenResp \<and>
         content w' = marshalTokenCache J (newTokenCache tokenResp w) \<and>
         saveTokenCache J tokenResp (w\<lparr>content := prior\<rparr>) = (None, w')"
  using assms
  by (auto simp: saveTokenCache_def loadCachedToken_def os_ReadFile_def os_WriteFile_def
      os_MkdirAll_def newTokenCache_def split: option.splits if_splits)

theorem save_then_load_witness:
  "saveTokenCache exampleCodec freshResponse (startWorld (Some ''stale'') []) =
     (None, startWorld (Some ''saved'') []) \<and>
   saveTokenCache exampleCodec freshResponse (startWorld None []) =
     (None, startWorld (Some ''saved'') []) \<and>
   loadCachedToken exampleCodec (startWorld (Some ''saved'') []) = Inr savedCredential"
proof -
  let ?w = "startWorld (Some ''stale'') []"
  have new: "newTokenCache freshResponse ?w = savedCredential"
    by (simp add: newTokenCache_def freshResponse_def savedCredential_def startWorld_def
        Second_def)
  have s: "saveTokenCache exampleCodec freshResponse ?w = (None, startWorld (Some ''saved'') [])"
    by (simp add: saveTokenCache_def os_MkdirAll_def os_WriteFile_def startWorld_def
        exampleCodec_def)
  have f: "SysReadFile \<notin> faults ?w"
    by (simp add: startWorld_def)
  have c: "\<forall>data. marshalTokenCache exampleCodec (newTokenCache freshResponse ?w) = Some data \<longrightarrow>
      unmarshalTokenCache exampleCodec data = Some (newTokenCache freshResponse ?w)"
    by (simp add: new) (simp add: exampleCodec_def)
  have u: "?w\<lparr>content := None\<rparr> = startWorld None []"
    by (simp add: startWorld_def)
  from save_then_load [OF s f c, of None] s new u show ?thesis
    by simp
qed

subsection \<open>The poll loop ends at the deadline\<close>

lemma pollLoop_times_out:
  assumes "\<forall>n. 0 < latency (net w n)" and "\<forall>n. keepsPending J (reply (net w n))"
  shows "\<exists>w'. pollLoop J dc ex i w = Some (Inl AuthenticationTimedOut, w') \<and> ex \<le> now w'"
  using assms
proof (induction "nat (ex - now w)" arbitrary: i w rule: less_induct)
  case less
  show ?case
  proof (cases "now w < ex")
    case False
    then show ?thesis by (simp add: pollLoop.simps [of J dc ex i w])
  next
    case True
    obtain out w1 where body: "pollBody J dc i w = (out, w1)"
      by (cases "pollBody J dc i w")
    from less.prems(2) obtain i' where out: "out = Continue i'"
      using pollBody_keepsPending [of J w dc i] body by auto
    have frame: "net w1 = net w"
      "now w1 = now w + max 0 (sint i) + int (latency (net w (length (requests w))))"
      using pollBody_frame [of J dc i w] body by simp_all
    from less.prems(1) have "0 < latency (net w (length (requests w)))" by blast
    with frame True have "nat (ex - now w1) < nat (ex - now w)" by simp
    with less.hyps [of w1 i'] less.prems frame
    obtain w' where "pollLoop J dc ex i' w1 = Some (Inl AuthenticationTimedOut, w')" "ex \<le> now w'"
      by auto
    with True body out show ?thesis
      by (simp add: pollLoop.simps [of J dc ex i w])
  qed
qed

text \<open>
  C3. Whatever the device authorization, when every exchange takes some time and the
  server never answers with success, a decline or a terminal error, \<open>pollForToken\<close>
  returns (the loop does not run forever), its result is the timed-out error, and the
  clock has then reached the deadline.
\<close>

theorem pollForToken_times_out:
  assumes "\<forall>n. 0 < latency (net w n)" and "\<forall>n. keepsPending J (reply (net w n))"
  shows "\<exists>w'. pollForToken J deviceCode w = Some (Inl AuthenticationTimedOut, w') \<and>
              now w + sint (dc_ExpiresIn deviceCode * Second) \<le> now w'"
  unfolding pollForToken_def using assms by (rule pollLoop_times_out)

theorem pollForToken_times_out_witness:
  "(\<forall>n. 0 < latency (net (startWorld None []) n)) \<and>
   (\<forall>n. keepsPending exampleCodec (reply (net (startWorld None []) n))) \<and>
   (\<exists>w'. pollForToken exampleCodec ordinaryCode (startWorld None []) =
            Some (Inl AuthenticationTimedOut, w') \<and> 900000000000 \<le> now w')"
proof -
  have time: "\<forall>n. 0 < latency (net (startWorld None []) n)"
    by (simp add: startWorld_def script_def)
  have pending: "\<forall>n. keepsPending exampleCodec (reply (net (startWorld None []) n))"
    by (simp add: startWorld_def script_def keepsPending_def exampleCodec_def)
  have "now (startWorld None []) + sint (dc_ExpiresIn ordinaryCode * Second) = 900000000000"
    by (simp add: startWorld_def ordinaryCode_def Second_def)
  with pollForToken_times_out [OF time pending, of ordinaryCode] time pending
  show ?thesis by simp
qed

subsection \<open>An error response that cannot be parsed\<close>

text \<open>
  C4, as the code has it. A response with a status other than 200 whose body does not
  parse as an error object ends the pass with \<^verbatim>\<open>continue\<close>: the interval is unchanged
  and, before the deadline, the loop goes on from the world after the pass. A terminal
  error carrying the raw code and description is returned when the body parses and its
  code is none of the four the loop knows.
\<close>

theorem pollBody_error_body:
  assumes "reply (net w (length (requests w))) = Response status (Some body)"
    and "status \<noteq> 200"
  shows "(unmarshalTokenError J body = None \<longrightarrow>
            fst (pollBody J deviceCode interval w) = Continue interval \<and>
            (now w < expiration \<longrightarrow>
               pollLoop J deviceCode expiration interval w =
               pollLoop J deviceCode expiration interval (snd (pollBody J deviceCode interval w)))) \<and>
         (\<forall>tokenErr. unmarshalTokenError J body = Some tokenErr \<and>
            te_Error tokenErr \<noteq> ''authorization_pending'' \<and>
            te_Error tokenErr \<noteq> ''slow_down'' \<and>
            te_Error tokenErr \<noteq> ''expired_token'' \<and>
            te_Error tokenErr \<noteq> ''authorization_declined'' \<longrightarrow>
            fst (pollBody J deviceCode interval w) =
              Return (Inl (AuthenticationError (te_Error tokenErr) (te_ErrorDescription tokenErr))))"
proof -
  have malformed: "fst (pollBody J deviceCode interval w) = Continue interval"
    if "unmarshalTokenError J body = None"
    using assms that by (simp add: pollBody_def PostForm_def Let_def time_Sleep_def)
  have goes_on: "pollLoop J deviceCode expiration interval w =
      pollLoop J deviceCode expiration interval (snd (pollBody J deviceCode interval w))"
    if "unmarshalTokenError J body = None" and "now w < expiration"
    using malformed [OF that(1)] that(2)
    by (subst pollLoop.simps) (auto split: prod.splits)
  have other: "fst (pollBody J deviceCode interval w) =
      Return (Inl (AuthenticationError (te_Error tokenErr) (te_ErrorDescription tokenErr)))"
    if "unmarshalTokenError J body = Some tokenErr"
      and "te_Error tokenErr \<noteq> ''authorization_pending''"
      and "te_Error tokenErr \<noteq> ''slow_down''"
      and "te_Error tokenErr \<noteq> ''expired_token''"
      and "te_Error tokenErr \<noteq> ''authorization_declined''"
    for tokenErr
    using assms that by (simp add: pollBody_def PostForm_def Let_def time_Sleep_def)
  from malformed goes_on other show ?thesis by blast
qed

theorem pollBody_error_body_witness:
  "fst (pollBody exampleCodec ordinaryCode (5 * Second)
          (startWorld None [Response 400 (Some ''garbage'')])) = Continue (5 * Second) \<and>
   fst (pollBody exampleCodec ordinaryCode (5 * Second)
          (startWorld None [Response 400 (Some ''invalid_grant'')])) =
     Return (Inl (AuthenticationError ''invalid_grant'' []))"
proof -
  let ?g = "startWorld None [Response 400 (Some ''garbage'')]"
  let ?o = "startWorld None [Response 400 (Some ''invalid_grant'')]"
  have g: "reply (net ?g (length (requests ?g))) = Response 400 (Some ''garbage'')"
    by (simp add: startWorld_def script_def)
  have o: "reply (net ?o (length (requests ?o))) = Response 400 (Some ''invalid_grant'')"
    by (simp add: startWorld_def script_def)
  have s: "(400::int) \<noteq> 200" by simp
  have dg: "unmarshalTokenError exampleCodec ''garbage'' = None"
    by (simp add: exampleCodec_def)
  have do: "unmarshalTokenError exampleCodec ''invalid_grant'' =
      Some \<lparr>te_Error = ''invalid_grant'', te_ErrorDescription = []\<rparr>"
    by (simp add: exampleCodec_def)
  from pollBody_error_body [OF g s, of exampleCodec ordinaryCode "5 * Second" 0] dg
  have 1: "fst (pollBody exampleCodec ordinaryCode (5 * Second) ?g) = Continue (5 * Second)"
    by blast
  from pollBody_error_body [OF o s, of exampleCodec ordinaryCode "5 * Second" 0] do
  have 2: "fst (pollBody exampleCodec ordinaryCode (5 * Second) ?o) =
      Return (Inl (AuthenticationError ''invalid_grant'' []))"
    by simp
  from 1 2 show ?thesis by simp
qed

text \<open>
  C4 as stated fails: the first response has status 400 and a body that is no error
  object, yet polling does not stop with an error; the second poll is made and its
  token is returned.
\<close>

theorem malformed_error_body_counterexample:
  "reply (net (startWorld None [Response 400 (Some ''garbage''), Response 200 (Some ''token'')]) 0)
     = Response 400 (Some ''garbage'') \<and>
   unmarshalTokenError exampleCodec ''garbage'' = None \<and>
   map_option fst (pollForToken exampleCodec ordinaryCode
       (startWorld None [Response 400 (Some ''garbage''), Response 200 (Some ''token'')]))
     = Some (Inr ''T1'') \<and>
   map_option (map snd \<circ> requests \<circ> snd) (pollForToken exampleCodec ordinaryCode
       (startWorld None [Response 400 (Some ''garbage''), Response 200 (Some ''token'')]))
     = Some [PollRequest ''D1'', PollRequest ''D1'']"
  by code_simp

subsection \<open>The intervals the poll loop sleeps for\<close>

lemma length_intervalsFrom: "length (intervalsFrom i ss) = length ss"
  by (induction ss arbitrary: i) simp_all

lemma intervalsFrom_nth:
  "j < length ss \<Longrightarrow>
   intervalsFrom i ss ! j = i + of_nat (length (filter id (take j ss))) * (5 * Second)"
proof (induction ss arbitrary: i j)
  case Nil
  then show ?case by simp
next
  case (Cons s ss)
  show ?case
  proof (cases j)
    case 0
    then show ?thesis by simp
  next
    case (Suc k)
    with Cons.prems have "k < length ss" by simp
    from Cons.IH [OF this] Suc show ?thesis
      by (simp add: algebra_simps)
  qed
qed

lemma pollLoop_sleeps:
  assumes "pollLoop J dc ex i w = Some y"
  shows "length (requests w) \<le> length (requests (snd y)) \<and> net (snd y) = net w \<and>
         sleeps (snd y) = sleeps w @
           intervalsFrom i (map (\<lambda>n. slowDown J (reply (net w n)))
                              [length (requests w) ..< length (requests (snd y))])"
  using assms
proof (induction rule: pollLoop_run_induct)
  case (Expired i w)
  then show ?case by simp
next
  case (Return i w r w')
  with pollBody_frame [of J dc i w] show ?case by simp
next
  case (Continue i w i' w1 y)
  from Continue.hyps(2) pollBody_frame [of J dc i w]
  have frame: "net w1 = net w"
    "requests w1 = requests w @ [(now w + max 0 (sint i), PollRequest (dc_DeviceCode dc))]"
    "sleeps w1 = sleeps w @ [i]"
    by simp_all
  from Continue.hyps(2)
  have i': "i' = (if slowDown J (reply (net w (length (requests w)))) then i + 5 * Second else i)"
    by (rule pollBody_Continue_interval)
  from Continue.IH frame have le: "Suc (length (requests w)) \<le> length (requests (snd y))"
    by simp
  then have upt: "[length (requests w) ..< length (requests (snd y))] =
      length (requests w) # [Suc (length (requests w)) ..< length (requests (snd y))]"
    by (simp add: upt_conv_Cons)
  from Continue.IH frame i' le show ?case
    by (simp add: upt)
qed

lemma pollLoop_elapsed:
  assumes "pollLoop J dc ex i w = Some y"
  shows "now w \<le> now (snd y) \<and>
         (\<forall>ss. sleeps (snd y) = sleeps w @ ss \<longrightarrow>
            (\<forall>d \<in> set ss. sint d \<le> now (snd y) - now w))"
  using assms
proof (induction rule: pollLoop_run_induct)
  case (Expired i w)
  then show ?case by simp
next
  case (Return i w r w')
  with pollBody_frame [of J dc i w] show ?case by auto
next
  case (Continue i w i' w1 y)
  from Continue.hyps(2) pollBody_frame [of J dc i w]
  have frame: "sleeps w1 = sleeps w @ [i]" "now w + max 0 (sint i) \<le> now w1"
    by simp_all
  from pollLoop_sleeps [OF Continue.hyps(3)] obtain rest where
    rest: "sleeps (snd y) = sleeps w1 @ rest" by blast
  with Continue.IH have later: "now w1 \<le> now (snd y)"
    "\<forall>d \<in> set rest. sint d \<le> now (snd y) - now w1"
    by simp_all
  have "\<forall>d \<in> set ss. sint d \<le> now (snd y) - now w" if "sleeps (snd y) = sleeps w @ ss" for ss
  proof -
    from that rest frame have "ss = i # rest" by simp
    with later frame show ?thesis by auto
  qed
  with later frame show ?case by simp
qed

text \<open>
  C5. In every run of \<open>pollForToken\<close> that returns, the loop sleeps once per request;
  the sleep before its \<open>j\<close>-th request lasts the initial interval plus five seconds for
  each \<^verbatim>\<open>slow_down\<close> among the replies before it (in the 64-bit arithmetic of
  \<^verbatim>\<open>time.Duration\<close>). So the sleep after a \<^verbatim>\<open>slow_down\<close> reply is the previous one
  plus five seconds, and it is strictly longer as long as the sum stays below
  \<open>2 ^ 63\<close> nanoseconds; that is so after every \<^verbatim>\<open>slow_down\<close> of a run that takes
  less than \<open>2 ^ 63\<close> nanoseconds (about 292 years) less five seconds.
\<close>

theorem pollForToken_slow_down_intervals:
  assumes run: "pollForToken J deviceCode w = Some (r, w')"
  shows "\<exists>ss. sleeps w' = sleeps w @ ss \<and>
           length ss = length (requests w') - length (requests w) \<and>
           (\<forall>j < length ss.
              ss ! j = initialInterval deviceCode + of_nat (slowDownsBefore J w j) * (5 * Second)) \<and>
           (\<forall>j. Suc j < length ss \<and>
                 slowDown J (reply (net w (length (requests w) + j))) \<longrightarrow>
                 ss ! Suc j = ss ! j + 5 * Second \<and>
                 (sint (ss ! j) + 5000000000 < 2 ^ 63 \<longrightarrow> sint (ss ! j) < sint (ss ! Suc j))) \<and>
           (now w' - now w + 5000000000 < 2 ^ 63 \<longrightarrow>
              (\<forall>j. Suc j < length ss \<and>
                    slowDown J (reply (net w (length (requests w) + j))) \<longrightarrow>
                    sint (ss ! j) < sint (ss ! Suc j)))"
proof -
  let ?l = "length (requests w)"
  let ?l' = "length (requests w')"
  let ?f = "\<lambda>n. slowDown J (reply (net w n))"
  let ?ss = "intervalsFrom (initialInterval deviceCode) (map ?f [?l ..< ?l'])"
  from run pollLoop_sleeps [of J deviceCode _ "initialInterval deviceCode" w "(r, w')"]
  have sl: "sleeps w' = sleeps w @ ?ss" and le: "?l \<le> ?l'"
    by (simp_all add: pollForToken_def)
  have len: "length ?ss = ?l' - ?l"
    by (simp add: length_intervalsFrom)
  have nth: "?ss ! j = initialInterval deviceCode + of_nat (slowDownsBefore J w j) * (5 * Second)"
    if "j < length ?ss" for j
  proof -
    from that len have j: "j < ?l' - ?l" by simp
    then have "take j (map ?f [?l ..< ?l']) = map ?f [?l ..< ?l + j]"
      by (simp add: take_map)
    then have "length (filter id (take j (map ?f [?l ..< ?l']))) = slowDownsBefore J w j"
      by (simp add: slowDownsBefore_def filter_map comp_def)
    with intervalsFrom_nth [of j "map ?f [?l ..< ?l']" "initialInterval deviceCode"] j
    show ?thesis by simp
  qed
  have step: "?ss ! Suc j = ?ss ! j + 5 * Second \<and>
      (sint (?ss ! j) + 5000000000 < 2 ^ 63 \<longrightarrow> sint (?ss ! j) < sint (?ss ! Suc j))"
    if "Suc j < length ?ss" and sd: "?f (?l + j)" for j
  proof -
    from that have "slowDownsBefore J w (Suc j) = Suc (slowDownsBefore J w j)"
      by (simp add: slowDownsBefore_def)
    with nth [of j] nth [of "Suc j"] that(1)
    have eq: "?ss ! Suc j = ?ss ! j + 5 * Second"
      by (simp add: algebra_simps)
    with sint_add_5_Second [of "?ss ! j"] show ?thesis by simp
  qed
  have short: "sint (?ss ! j) < sint (?ss ! Suc j)"
    if "now w' - now w + 5000000000 < 2 ^ 63" and "Suc j < length ?ss" and "?f (?l + j)" for j
  proof -
    from run pollLoop_elapsed [of J deviceCode _ "initialInterval deviceCode" w "(r, w')"] sl
    have "\<forall>d \<in> set ?ss. sint d \<le> now w' - now w"
      by (simp add: pollForToken_def)
    moreover from that(2) have "?ss ! j \<in> set ?ss" by simp
    ultimately have "sint (?ss ! j) \<le> now w' - now w" by blast
    with that(1) have below: "sint (?ss ! j) + 5000000000 < 2 ^ 63" by simp
    from step [OF that(2,3)] below show ?thesis by blast
  qed
  from sl len nth step short show ?thesis by blast
qed

theorem pollForToken_slow_down_intervals_witness:
  "map_option (sleeps \<circ> snd)
     (pollForToken exampleCodec ordinaryCode
        (startWorld None [Response 400 (Some ''slow_down''), Response 400 (Some ''slow_down''),
                          Response 200 (Some ''token'')]))
     = Some [5000000000, 10000000000, 15000000000] \<and>
   (\<exists>r w' ss.
      pollForToken exampleCodec ordinaryCode
        (startWorld None [Response 400 (Some ''slow_down''), Response 400 (Some ''slow_down''),
                          Response 200 (Some ''token'')]) = Some (r, w') \<and>
      sleeps w' = ss \<and> length ss = 3 \<and>
      ss ! 1 = ss ! 0 + 5 * Second \<and> sint (ss ! 0) < sint (ss ! 1) \<and>
      ss ! 2 = ss ! 1 + 5 * Second \<and> sint (ss ! 1) < sint (ss ! 2))"
proof -
  let ?w = "startWorld None [Response 400 (Some ''slow_down''), Response 400 (Some ''slow_down''),
                          Response 200 (Some ''token'')]"
  let ?run = "pollForToken exampleCodec ordinaryCode ?w"
  have sl: "map_option (sleeps \<circ> snd) ?run = Some [5000000000, 10000000000, 15000000000]"
    by code_simp
  have rq: "map_option (length \<circ> requests \<circ> snd) ?run = Some 3"
    by code_simp
  from sl obtain r w' where run: "?run = Some (r, w')"
    by (cases ?run) auto
  from pollForToken_slow_down_intervals [OF run] obtain ss where
    ss: "sleeps w' = sleeps ?w @ ss" "length ss = length (requests w') - length (requests ?w)"
    and step: "\<And>j. Suc j < length ss \<Longrightarrow> slowDown exampleCodec (reply (net ?w (length (requests ?w) + j))) \<Longrightarrow>
       ss ! Suc j = ss ! j + 5 * Second \<and>
       (sint (ss ! j) + 5000000000 < 2 ^ 63 \<longrightarrow> sint (ss ! j) < sint (ss ! Suc j))"
    by blast
  from run sl rq ss have vals: "sleeps w' = ss" "ss = [5000000000, 10000000000, 15000000000]"
    by (simp_all add: startWorld_def)
  have sd0: "slowDown exampleCodec (reply (net ?w (length (requests ?w) + 0)))"
    by (simp add: startWorld_def script_def slowDown_def exampleCodec_def)
  have sd1: "slowDown exampleCodec (reply (net ?w (length (requests ?w) + 1)))"
    by (simp add: startWorld_def script_def slowDown_def exampleCodec_def)
  from step [of 0] sd0 vals have s0: "ss ! 1 = ss ! 0 + 5 * Second \<and> sint (ss ! 0) < sint (ss ! 1)"
    by simp
  from step [of 1] sd1 vals have s1: "ss ! 2 = ss ! 1 + 5 * Second \<and> sint (ss ! 1) < sint (ss ! 2)"
    by (simp add: numeral_2_eq_2)
  from sl run vals s0 s1 show ?thesis by auto
qed

subsection \<open>Refreshing a credential that is about to expire\<close>

lemma pollLoop_refreshesPosted:
  assumes "pollLoop J dc ex i w = Some y"
  shows "refreshesPosted (snd y) = refreshesPosted w"
  using assms
proof (induction rule: pollLoop_run_induct)
  case (Expired i w)
  then show ?case by simp
next
  case (Return i w r w')
  with pollBody_frame [of J dc i w] show ?case
    by (simp add: refreshesPosted_def)
next
  case (Continue i w i' w1 y)
  with pollBody_frame [of J dc i w] show ?case
    by (simp add: refreshesPosted_def)
qed

lemma requestDeviceCode_refreshesPosted:
  "refreshesPosted (snd (requestDeviceCode J w)) = refreshesPosted w"
  by (simp add: requestDeviceCode_def PostForm_def Let_def refreshesPosted_def
      split: reply.splits option.splits)

lemma authenticateWithDeviceFlow_refreshesPosted:
  assumes "authenticateWithDeviceFlow J w = Some (r, w')"
  shows "refreshesPosted w' = refreshesPosted w"
proof -
  obtain res w1 where rq: "requestDeviceCode J w = (res, w1)"
    by (cases "requestDeviceCode J w")
  with requestDeviceCode_refreshesPosted [of J w]
  have w1: "refreshesPosted w1 = refreshesPosted w" by simp
  show ?thesis
  proof (cases res)
    case (Inl e)
    with assms rq w1 show ?thesis
      by (simp add: authenticateWithDeviceFlow_def)
  next
    case (Inr dc)
    with assms rq obtain r2 where "pollForToken J dc w1 = Some (r2, w')"
      by (auto simp: authenticateWithDeviceFlow_def split: option.splits sum.splits)
    then have "refreshesPosted w' = refreshesPosted w1"
      using pollLoop_refreshesPosted [of J dc _ _ w1 "(r2, w')"]
      by (simp add: pollForToken_def)
    with w1 show ?thesis by simp
  qed
qed

lemma refreshToken_requests:
  "requests (snd (refreshToken J tok w)) = requests w @ [(now w, RefreshRequest tok)]"
  by (simp add: refreshToken_def PostForm_def Let_def saveOrWarn_frame
      split: reply.splits option.splits)

text \<open>
  C2. When the cache file holds a credential that expires within five minutes of the
  current time (or has expired) and whose refresh token is not empty, every run of
  \<open>GetToken\<close> that returns has posted exactly one refresh request, with that refresh
  token. When \<open>refreshToken\<close> succeeds, \<open>GetToken\<close> returns the new access token, and
  the refresh request is the only request it has posted: no device code was requested
  and nothing was polled.
\<close>

theorem GetToken_refreshes_once:
  assumes "loadCachedToken J w = Inr token"
    and "tc_ExpiresAt token \<le> now w + 300000000000"
    and "tc_RefreshToken token \<noteq> []"
  shows "(\<forall>r w'. GetToken J w = Some (r, w') \<longrightarrow>
            refreshesPosted w' = refreshesPosted w @ [tc_RefreshToken token]) \<and>
         (\<forall>newToken w1. refreshToken J (tc_RefreshToken token) w = (Inr newToken, w1) \<longrightarrow>
            GetToken J w = Some (Inr newToken, w1) \<and>
            requests w1 = requests w @ [(now w, RefreshRequest (tc_RefreshToken token))])"
proof -
  let ?tok = "tc_RefreshToken token"
  obtain res w1 where rf: "refreshToken J ?tok w = (res, w1)"
    by (cases "refreshToken J ?tok w")
  with refreshToken_requests [of J ?tok w]
  have rq: "requests w1 = requests w @ [(now w, RefreshRequest ?tok)]" by simp
  then have posted: "refreshesPosted w1 = refreshesPosted w @ [?tok]"
    by (simp add: refreshesPosted_def)
  have get: "GetToken J w =
      (case res of Inr newToken \<Rightarrow> Some (Inr newToken, w1)
       | Inl e \<Rightarrow> authenticateWithDeviceFlow J w1)"
    using assms rf by (simp add: GetToken_def sint_5_Minute)
  have "refreshesPosted w' = refreshesPosted w @ [?tok]" if "GetToken J w = Some (r, w')" for r w'
  proof (cases res)
    case (Inl e)
    with get that have "authenticateWithDeviceFlow J w1 = Some (r, w')" by simp
    from authenticateWithDeviceFlow_refreshesPosted [OF this] posted show ?thesis by simp
  next
    case (Inr newToken)
    with get that posted show ?thesis by simp
  qed
  moreover have "GetToken J w = Some (Inr newToken, w2) \<and>
      requests w2 = requests w @ [(now w, RefreshRequest ?tok)]"
    if "refreshToken J ?tok w = (Inr newToken, w2)" for newToken w2
    using that rf rq get by simp
  ultimately show ?thesis by blast
qed

theorem GetToken_refreshes_once_witness:
  "loadCachedToken exampleCodec (startWorld (Some ''stale'') [Response 200 (Some ''token'')])
     = Inr staleCredential \<and>
   tc_ExpiresAt staleCredential
     \<le> now (startWorld (Some ''stale'') [Response 200 (Some ''token'')]) + 300000000000 \<and>
   tc_RefreshToken staleCredential \<noteq> [] \<and>
   fst (refreshToken exampleCodec ''R9'' (startWorld (Some ''stale'') [Response 200 (Some ''token'')]))
     = Inr ''T1'' \<and>
   map_option fst (GetToken exampleCodec (startWorld (Some ''stale'') [Response 200 (Some ''token'')]))
     = Some (Inr ''T1'') \<and>
   map_option (requests \<circ> snd)
     (GetToken exampleCodec (startWorld (Some ''stale'') [Response 200 (Some ''token'')]))
     = Some [(0, RefreshRequest ''R9'')]"
proof -
  let ?w = "startWorld (Some ''stale'') [Response 200 (Some ''token'')]"
  have load: "loadCachedToken exampleCodec ?w = Inr staleCredential"
    by (simp add: loadCachedToken_def os_ReadFile_def startWorld_def exampleCodec_def)
  have stale: "tc_ExpiresAt staleCredential \<le> now ?w + 300000000000"
    by (simp add: staleCredential_def startWorld_def)
  have tok: "tc_RefreshToken staleCredential \<noteq> []" "tc_RefreshToken staleCredential = ''R9''"
    by (simp_all add: staleCredential_def)
  obtain res w1 where rf: "refreshToken exampleCodec ''R9'' ?w = (res, w1)"
    by (cases "refreshToken exampleCodec ''R9'' ?w")
  have "fst (refreshToken exampleCodec ''R9'' ?w) = Inr ''T1''"
    by (simp add: refreshToken_def PostForm_def Let_def decodeBody_def startWorld_def
        script_def exampleCodec_def freshResponse_def)
  with rf have res: "refreshToken exampleCodec ''R9'' ?w = (Inr ''T1'', w1)" by simp
  from GetToken_refreshes_once [OF load stale tok(1)] tok(2) res
  have "GetToken exampleCodec ?w = Some (Inr ''T1'', w1) \<and>
      requests w1 = requests ?w @ [(now ?w, RefreshRequest ''R9'')]"
    by simp
  with load stale tok res show ?thesis
    by (simp add: startWorld_def)
qed

subsection \<open>A corrupt cache file\<close>

lemma sameButCache_sym: "sameButCache w v \<Longrightarrow> sameButCache v w"
  by (simp add: sameButCache_def)

lemma saveOrWarn_sameButCache:
  assumes "sameButCache w v"
  shows "sameButCache (saveOrWarn J t w) (saveOrWarn J t v)"
  using assms
  by (auto simp: sameButCache_def saveOrWarn_def saveTokenCache_def os_MkdirAll_def
      os_WriteFile_def warn_def newTokenCache_def split: option.splits prod.splits)

lemma PostForm_sameButCache:
  assumes "sameButCache w v"
  shows "fst (PostForm rq w) = fst (PostForm rq v) \<and>
         sameButCache (snd (PostForm rq w)) (snd (PostForm rq v))"
  using assms by (simp add: sameButCache_def PostForm_def Let_def)

lemma time_Sleep_sameButCache:
  assumes "sameButCache w v"
  shows "sameButCache (time_Sleep d w) (time_Sleep d v)"
  using assms by (simp add: sameButCache_def time_Sleep_def)

lemma pollBody_sameButCache:
  assumes "sameButCache w v"
  shows "fst (pollBody J dc i w) = fst (pollBody J dc i v) \<and>
         sameButCache (snd (pollBody J dc i w)) (snd (pollBody J dc i v))"
proof -
  let ?rq = "PollRequest (dc_DeviceCode dc)"
  from assms have "sameButCache (time_Sleep i w) (time_Sleep i v)"
    by (rule time_Sleep_sameButCache)
  from PostForm_sameButCache [OF this, of ?rq]
  obtain rep w1 v1 where p: "PostForm ?rq (time_Sleep i w) = (rep, w1)"
    "PostForm ?rq (time_Sleep i v) = (rep, v1)" and s: "sameButCache w1 v1"
    by (cases "PostForm ?rq (time_Sleep i w)"; cases "PostForm ?rq (time_Sleep i v)") auto
  from s have "sameButCache (saveOrWarn J t w1) (saveOrWarn J t v1)" for t
    by (rule saveOrWarn_sameButCache)
  with p s show ?thesis
    by (simp add: pollBody_def split: reply.splits option.splits)
qed

lemma pollLoop_sameButCache:
  assumes "pollLoop J dc ex i w = Some y"
  shows "\<forall>v. sameButCache w v \<longrightarrow>
           (\<exists>v'. pollLoop J dc ex i v = Some (fst y, v') \<and> sameButCache (snd y) v')"
  using assms
proof (induction rule: pollLoop_run_induct)
  case (Expired i w)
  show ?case
  proof (intro allI impI)
    fix v assume "sameButCache w v"
    with Expired show "\<exists>v'. pollLoop J dc ex i v = Some (fst (Inl AuthenticationTimedOut, w), v') \<and>
        sameButCache (snd (Inl AuthenticationTimedOut, w)) v'"
      by (simp add: pollLoop.simps [of J dc ex i v] sameButCache_def)
  qed
next
  case (Return i w r w')
  show ?case
  proof (intro allI impI)
    fix v assume s: "sameButCache w v"
    obtain out v' where b: "pollBody J dc i v = (out, v')"
      by (cases "pollBody J dc i v")
    with pollBody_sameButCache [OF s, of J dc i] Return
    have "out = Return r" "sameButCache w' v'" by simp_all
    moreover from s Return have "now v < ex" by (simp add: sameButCache_def)
    ultimately show "\<exists>v'. pollLoop J dc ex i v = Some (fst (r, w'), v') \<and>
        sameButCache (snd (r, w')) v'"
      using b by (simp add: pollLoop.simps [of J dc ex i v])
  qed
next
  case (Continue i w i' w1 y)
  show ?case
  proof (intro allI impI)
    fix v assume s: "sameButCache w v"
    obtain out v1 where b: "pollBody J dc i v = (out, v1)"
      by (cases "pollBody J dc i v")
    with pollBody_sameButCache [OF s, of J dc i] Continue.hyps
    have o: "out = Continue i'" and s1: "sameButCache w1 v1" by simp_all
    from Continue.IH s1 obtain v' where
      "pollLoop J dc ex i' v1 = Some (fst y, v')" "sameButCache (snd y) v'"
      by blast
    moreover from s Continue.hyps have "now v < ex" by (simp add: sameButCache_def)
    ultimately show "\<exists>v'. pollLoop J dc ex i v = Some (fst y, v') \<and> sameButCache (snd y) v'"
      using b o by (simp add: pollLoop.simps [of J dc ex i v])
  qed
qed

lemma pollLoop_sameOutcome:
  assumes s: "sameButCache w v"
  shows "sameOutcome (pollLoop J dc ex i w) (pollLoop J dc ex i v)"
proof (cases "pollLoop J dc ex i w")
  case (Some y)
  from pollLoop_sameButCache [OF this] s obtain v' where
    "pollLoop J dc ex i v = Some (fst y, v')" "sameButCache (snd y) v'" by blast
  with Some show ?thesis
    by (cases y) (simp add: sameOutcome_def)
next
  case None
  show ?thesis
  proof (cases "pollLoop J dc ex i v")
    case None
    with \<open>pollLoop J dc ex i w = None\<close> show ?thesis by (simp add: sameOutcome_def)
  next
    case (Some y)
    from pollLoop_sameButCache [OF this] sameButCache_sym [OF s]
    obtain w' where "pollLoop J dc ex i w = Some (fst y, w')" by blast
    with None show ?thesis by simp
  qed
qed

lemma requestDeviceCode_sameButCache:
  assumes "sameButCache w v"
  shows "fst (requestDeviceCode J w) = fst (requestDeviceCode J v) \<and>
         sameButCache (snd (requestDeviceCode J w)) (snd (requestDeviceCode J v))"
proof -
  from PostForm_sameButCache [OF assms, of DeviceCodeRequest]
  obtain rep w1 v1 where "PostForm DeviceCodeRequest w = (rep, w1)"
    "PostForm DeviceCodeRequest v = (rep, v1)" "sameButCache w1 v1"
    by (cases "PostForm DeviceCodeRequest w"; cases "PostForm DeviceCodeRequest v") auto
  then show ?thesis
    by (simp add: requestDeviceCode_def split: reply.splits option.splits)
qed

lemma authenticateWithDeviceFlow_sameOutcome:
  assumes s: "sameButCache w v"
  shows "sameOutcome (authenticateWithDeviceFlow J w) (authenticateWithDeviceFlow J v)"
proof -
  from requestDeviceCode_sameButCache [OF s, of J]
  obtain res w1 v1 where rq: "requestDeviceCode J w = (res, w1)"
    "requestDeviceCode J v = (res, v1)" and s1: "sameButCache w1 v1"
    by (cases "requestDeviceCode J w"; cases "requestDeviceCode J v") auto
  show ?thesis
  proof (cases res)
    case (Inl e)
    with rq s1 show ?thesis
      by (simp add: authenticateWithDeviceFlow_def sameOutcome_def)
  next
    case (Inr dc)
    from s1 have n: "now w1 = now v1" by (simp add: sameButCache_def)
    from pollLoop_sameOutcome [OF s1, of J dc "now w1 + sint (dc_ExpiresIn dc * Second)"
        "initialInterval dc"] n
    have "sameOutcome (pollForToken J dc w1) (pollForToken J dc v1)"
      by (simp add: pollForToken_def)
    with rq Inr show ?thesis
      by (auto simp: authenticateWithDeviceFlow_def sameOutcome_def
          split: option.splits sum.splits)
  qed
qed

text \<open>
  C6. When the cache file holds bytes that do not decode as a credential, loading
  reports an error (the decoder's, when the file can be read), \<open>GetToken\<close> is the
  device flow, and so is \<open>GetToken\<close> on the same world without a cache file. The two
  runs return the same token or error, or both never return, and they leave worlds that
  agree on the clock, the requests posted, the sleeps and the warnings.
\<close>

theorem GetToken_corrupt_cache:
  assumes "content w = Some data" and "unmarshalTokenCache J data = None"
  shows "(\<exists>e. loadCachedToken J w = Inl e) \<and>
         (SysReadFile \<notin> faults w \<longrightarrow> loadCachedToken J w = Inl JsonError) \<and>
         GetToken J w = authenticateWithDeviceFlow J w \<and>
         GetToken J (w\<lparr>content := None\<rparr>) = authenticateWithDeviceFlow J (w\<lparr>content := None\<rparr>) \<and>
         sameOutcome (GetToken J w) (GetToken J (w\<lparr>content := None\<rparr>))"
proof -
  have load: "loadCachedToken J w =
      Inl (if SysReadFile \<in> faults w then OsError ErrOther else JsonError)"
    using assms by (simp add: loadCachedToken_def os_ReadFile_def)
  then have corrupt: "GetToken J w = authenticateWithDeviceFlow J w"
    by (simp add: GetToken_def)
  have "\<exists>e. loadCachedToken J (w\<lparr>content := None\<rparr>) = Inl e"
    by (simp add: loadCachedToken_def os_ReadFile_def)
  then have absent: "GetToken J (w\<lparr>content := None\<rparr>) =
      authenticateWithDeviceFlow J (w\<lparr>content := None\<rparr>)"
    by (auto simp: GetToken_def)
  have "sameButCache w (w\<lparr>content := None\<rparr>)"
    by (simp add: sameButCache_def)
  from authenticateWithDeviceFlow_sameOutcome [OF this, of J] corrupt absent
  have "sameOutcome (GetToken J w) (GetToken J (w\<lparr>content := None\<rparr>))" by simp
  with load corrupt absent show ?thesis by simp
qed

theorem GetToken_corrupt_cache_witness:
  "content (startWorld (Some ''corrupt'') [Response 200 (Some ''device''), Response 200 (Some ''token'')])
     = Some ''corrupt'' \<and>
   unmarshalTokenCache exampleCodec ''corrupt'' = None \<and>
   loadCachedToken exampleCodec
     (startWorld (Some ''corrupt'') [Response 200 (Some ''device''), Response 200 (Some ''token'')])
     = Inl JsonError \<and>
   map_option fst (GetToken exampleCodec
     (startWorld (Some ''corrupt'') [Response 200 (Some ''device''), Response 200 (Some ''token'')]))
     = Some (Inr ''T1'') \<and>
   map_option fst (GetToken exampleCodec
     (startWorld None [Response 200 (Some ''device''), Response 200 (Some ''token'')]))
     = Some (Inr ''T1'')"
proof -
  let ?c = "startWorld (Some ''corrupt'') [Response 200 (Some ''device''), Response 200 (Some ''token'')]"
  let ?a = "startWorld None [Response 200 (Some ''device''), Response 200 (Some ''token'')]"
  have held: "content ?c = Some ''corrupt''" and nofault: "SysReadFile \<notin> faults ?c"
    by (simp_all add: startWorld_def)
  have bad: "unmarshalTokenCache exampleCodec ''corrupt'' = None"
    by (simp add: exampleCodec_def)
  have a: "?c\<lparr>content := None\<rparr> = ?a"
    by (simp add: startWorld_def)
  have run: "map_option fst (GetToken exampleCodec ?c) = Some (Inr ''T1'')"
    by code_simp
  note corrupt = GetToken_corrupt_cache [OF held bad]
  from corrupt nofault have load: "loadCachedToken exampleCodec ?c = Inl JsonError"
    by blast
  from corrupt have "sameOutcome (GetToken exampleCodec ?c) (GetToken exampleCodec (?c\<lparr>content := None\<rparr>))"
    by blast
  then have same: "sameOutcome (GetToken exampleCodec ?c) (GetToken exampleCodec ?a)"
    unfolding a .
  from same run have "map_option fst (GetToken exampleCodec ?a) = Some (Inr ''T1'')"
    by (auto simp: sameOutcome_def split: option.splits)
  with held bad load run show ?thesis by simp
qed

subsection \<open>A device code that has expired on arrival\<close>

lemma sint_times_Second:
  fixes x :: int64
  assumes "- 9223372036 \<le> sint x" and "sint x \<le> 9223372036"
  shows "sint (x * Second) = sint x * 1000000000"
proof -
  have "sint (x * Second) = signed_take_bit 63 (sint x * 1000000000)"
    by (simp add: sint_word_ariths Second_def)
  also from assms have "\<dots> = sint x * 1000000000"
    by (intro signed_take_bit_int_eq_self) simp_all
  finally show ?thesis .
qed

text \<open>
  C10, as the code has it. For a device-code response whose \<open>ExpiresIn\<close> is at most
  zero and at least \<open>-9223372036\<close> (so that its product with \<open>10^9\<close> fits the 64-bit
  duration), \<open>pollForToken\<close> returns the timed-out error and leaves the world as it
  was: no request, no sleep. And for the response with \<open>ExpiresIn = 1\<close> and
  \<open>Interval = 5\<close> against a server that answers \<^verbatim>\<open>authorization_pending\<close>, exactly one poll
  request is posted, five seconds after the start, when the deadline of one second has
  passed; the result is the timed-out error.
\<close>

theorem pollForToken_expired_on_arrival:
  "(sint (dc_ExpiresIn deviceCode) \<le> 0 \<and> - 9223372036 \<le> sint (dc_ExpiresIn deviceCode) \<longrightarrow>
      pollForToken J deviceCode w = Some (Inl AuthenticationTimedOut, w)) \<and>
   0 < sint (dc_ExpiresIn shortLivedCode) \<and>
   sint (dc_ExpiresIn shortLivedCode) < sint (dc_Interval shortLivedCode) \<and>
   now (startWorld None []) + sint (dc_ExpiresIn shortLivedCode * Second) = 1000000000 \<and>
   map_option fst (pollForToken exampleCodec shortLivedCode (startWorld None []))
     = Some (Inl AuthenticationTimedOut) \<and>
   map_option (requests \<circ> snd) (pollForToken exampleCodec shortLivedCode (startWorld None []))
     = Some [(5000000000, PollRequest ''D1'')]"
proof -
  have early: "pollForToken J deviceCode w = Some (Inl AuthenticationTimedOut, w)"
    if "sint (dc_ExpiresIn deviceCode) \<le> 0" and "- 9223372036 \<le> sint (dc_ExpiresIn deviceCode)"
  proof -
    from that have "sint (dc_ExpiresIn deviceCode * Second) = sint (dc_ExpiresIn deviceCode) * 1000000000"
      by (intro sint_times_Second) simp_all
    with that(1) have "sint (dc_ExpiresIn deviceCode * Second) \<le> 0"
      by (simp add: mult_le_0_iff)
    then show ?thesis
      by (simp add: pollForToken_def pollLoop.simps [of _ _ _ _ w])
  qed
  have bounds: "0 < sint (dc_ExpiresIn shortLivedCode) \<and>
      sint (dc_ExpiresIn shortLivedCode) < sint (dc_Interval shortLivedCode) \<and>
      now (startWorld None []) + sint (dc_ExpiresIn shortLivedCode * Second) = 1000000000"
    by (simp add: shortLivedCode_def ordinaryCode_def startWorld_def Second_def)
  have res: "map_option fst (pollForToken exampleCodec shortLivedCode (startWorld None []))
      = Some (Inl AuthenticationTimedOut)"
    by code_simp
  have reqs: "map_option (requests \<circ> snd) (pollForToken exampleCodec shortLivedCode (startWorld None []))
      = Some [(5000000000, PollRequest ''D1'')]"
    by code_simp
  from early bounds res reqs show ?thesis by blast
qed

theorem pollForToken_expired_on_arrival_witness:
  "sint (dc_ExpiresIn (ordinaryCode\<lparr>dc_ExpiresIn := - 1\<rparr>)) \<le> 0 \<and>
   - 9223372036 \<le> sint (dc_ExpiresIn (ordinaryCode\<lparr>dc_ExpiresIn := - 1\<rparr>)) \<and>
   pollForToken exampleCodec (ordinaryCode\<lparr>dc_ExpiresIn := - 1\<rparr>)
     (startWorld None [Response 200 (Some ''token'')])
     = Some (Inl AuthenticationTimedOut, startWorld None [Response 200 (Some ''token'')])"
proof -
  have h: "sint (dc_ExpiresIn (ordinaryCode\<lparr>dc_ExpiresIn := - 1\<rparr>)) \<le> 0 \<and>
      - 9223372036 \<le> sint (dc_ExpiresIn (ordinaryCode\<lparr>dc_ExpiresIn := - 1\<rparr>))"
    by simp
  from pollForToken_expired_on_arrival [of "ordinaryCode\<lparr>dc_ExpiresIn := - 1\<rparr>" exampleCodec
      "startWorld None [Response 200 (Some ''token'')]"] h
  show ?thesis by blast
qed

text \<open>
  C10 as stated fails on a lifetime whose product with \<open>10^9\<close> overflows:
  \<open>ExpiresIn = -9223372037\<close> is negative, the duration computed from it is about
  292 years, and the poller sleeps five seconds and posts a request, to which the
  server here answers \<^verbatim>\<open>expired_token\<close>.
\<close>

theorem expired_on_arrival_counterexample:
  "sint (dc_ExpiresIn overflowCode) \<le> 0 \<and>
   sint (dc_ExpiresIn overflowCode * Second) = 9223372036709551616 \<and>
   map_option fst (pollForToken exampleCodec overflowCode
       (startWorld None [Response 400 (Some ''expired_token'')]))
     = Some (Inl DeviceCodeExpired) \<and>
   map_option (sleeps \<circ> snd) (pollForToken exampleCodec overflowCode
       (startWorld None [Response 400 (Some ''expired_token'')]))
     = Some [5000000000] \<and>
   map_option (requests \<circ> snd) (pollForToken exampleCodec overflowCode
       (startWorld None [Response 400 (Some ''expired_token'')]))
     = Some [(5000000000, PollRequest ''D1'')]"
proof -
  have "sint (dc_ExpiresIn overflowCode) \<le> 0 \<and>
      sint (dc_ExpiresIn overflowCode * Second) = 9223372036709551616"
    by (simp add: overflowCode_def ordinaryCode_def Second_def)
  moreover have "map_option fst (pollForToken exampleCodec overflowCode
       (startWorld None [Response 400 (Some ''expired_token'')])) = Some (Inl DeviceCodeExpired)"
    by code_simp
  moreover have "map_option (sleeps \<circ> snd) (pollForToken exampleCodec overflowCode
       (startWorld None [Response 400 (Some ''expired_token'')])) = Some [5000000000]"
    by code_simp
  moreover have "map_option (requests \<circ> snd) (pollForToken exampleCodec overflowCode
       (startWorld None [Response 400 (Some ''expired_token'')]))
     = Some [(5000000000, PollRequest ''D1'')]"
    by code_simp
  ultimately show ?thesis by blast
qed

end
